theory Spec2Isabelle
  imports Complex_Main "HOL-Library.AList"
begin

section \<open>Numbers and their text\<close>

text \<open>
  The comparison tool reads two JSON documents and renders numbers taken from them.
  JSON numbers are modelled as exact rationals: the rounding error of binary64
  arithmetic is not part of the model, and \<open>-0\<close> is \<open>0\<close>. Strings are byte
  strings; a JavaScript object used as a dictionary is an association list in
  property enumeration order, read with \<open>map_of\<close>, its keys being own properties.

  \<open>Number.prototype.toFixed\<close> follows ECMAScript: the sign is split off, the
  magnitude times \<open>10 ^ f\<close> is rounded to the nearest integer (the larger one on a
  tie), the digits are padded with zeros to \<open>f + 1\<close> places and the point is put
  before the last \<open>f\<close> of them. From \<open>10 ^ 21\<close> on, ECMAScript answers with the
  exponential rendering of the number; that text depends on the binary
  representation and is kept symbolic as \<open>Exponential x\<close>.
\<close>

datatype numtext = Fixed string | Exponential rat

definition digit :: "nat \<Rightarrow> char" where
  "digit n = ''0123456789'' ! n"

definition digit_val :: "char \<Rightarrow> nat" where
  "digit_val c = of_char c - 48"


fun show_nat :: "nat \<Rightarrow> string" where
  "show_nat n = (if n < 10 then [digit n] else show_nat (n div 10) @ [digit (n mod 10)])"

declare show_nat.simps [simp del]

definition show_int :: "int \<Rightarrow> string" where
  "show_int i = (if i < 0 then ''-'' @ show_nat (nat (- i)) else show_nat (nat i))"

definition pad_zeros :: "nat \<Rightarrow> string \<Rightarrow> string" where
  "pad_zeros k m = replicate (k - length m) (CHR ''0'') @ m"

definition fixed_digits :: "nat \<Rightarrow> nat \<Rightarrow> string" where
  "fixed_digits f n =
     (let m = show_nat n
      in if f \<noteq> 0
         then let p = pad_zeros (f + 1) m; k = length p
              in take (k - f) p @ ''.'' @ drop (k - f) p
         else m)"

definition toFixed :: "nat \<Rightarrow> rat \<Rightarrow> numtext" where
  "toFixed f x =
     (let s = (if x < 0 then ''-'' else '''');
          y = \<bar>x\<bar>
      in if 10 ^ 21 \<le> y then Exponential x
         else Fixed (s @ fixed_digits f (nat \<lfloor>y * 10 ^ f + 1 / 2\<rfloor>)))"

text \<open>\<open>Math.round\<close> rounds a tie upwards; the template then prints the integer.\<close>

definition math_round :: "rat \<Rightarrow> int" where
  "math_round x = \<lfloor>x + 1 / 2\<rfloor>"

definition show_number :: "int \<Rightarrow> numtext" where
  "show_number i = (if 10 ^ 21 \<le> \<bar>i\<bar> then Exponential (of_int i) else Fixed (show_int i))"

text \<open>Reading a decimal text back, to say what number a text denotes.\<close>

definition val_digits :: "string \<Rightarrow> nat" where
  "val_digits s = foldl (\<lambda>acc c. 10 * acc + digit_val c) 0 s"








section \<open>The delta engine\<close>

datatype trend = Better | Worse | Equal

record delta =
  before :: rat
  after :: rat
  diff :: rat
  percent :: numtext
  trend :: trend

definition compareNumbers :: "rat \<Rightarrow> rat \<Rightarrow> bool \<Rightarrow> delta" where
  "compareNumbers b a isScore =
     (let d = a - b;
          p = (if b \<noteq> 0 then toFixed 1 ((d / b) * 100) else Fixed ''0'');
          t = (if d = 0 then Equal
               else if (if isScore then 0 < d else d < 0) then Better
               else Worse)
      in \<lparr>before = b, after = a, diff = d, percent = p, trend = t\<rparr>)"

text \<open>The secondary delta of an audit's raw numeric values, written inline in \<open>main\<close>.\<close>

definition numericDelta :: "rat \<Rightarrow> rat \<Rightarrow> delta" where
  "numericDelta numB numA =
     (let diffNum = numA - numB;
          percentNum = (if numB \<noteq> 0 then toFixed 1 ((diffNum / numB) * 100) else Fixed ''0'');
          trendNum = (if diffNum = 0 then Equal else if diffNum < 0 then Better else Worse)
      in \<lparr>before = numB, after = numA, diff = diffNum, percent = percentNum, trend = trendNum\<rparr>)"

text \<open>The specification's trend of a difference under a polarity.\<close>

definition trend_spec :: "rat \<Rightarrow> bool \<Rightarrow> trend" where
  "trend_spec d scoreMode =
     (if d = 0 then Equal
      else if scoreMode then (if 0 < d then Better else Worse)
      else (if d < 0 then Better else Worse))"

text \<open>
  The records hold the fields the code reads. \<open>None\<close> is a \<open>null\<close> or missing
  value; a snapshot whose \<open>audits\<close> is \<open>None\<close> has no such mapping at all.
\<close>

record Audit =
  audit_title :: string
  audit_score :: "rat option"
  displayValue :: "string option"
  numericValue :: "rat option"
  numericUnit :: "string option"

record AuditRef =
  ref_id :: string
  ref_group :: "string option"

record CategoryGroup =
  group_title :: "string option"

record Category =
  cat_id :: string
  cat_title :: string
  cat_score :: "rat option"
  auditRefs :: "AuditRef list"

record LighthouseReport =
  audits :: "(string \<times> Audit) list option"
  categories :: "(string \<times> Category) list option"
  categoryGroups :: "(string \<times> CategoryGroup) list option"

record CategoryDiff = delta +
  title :: string

record AuditDiff = delta +
  diff_id :: string
  numeric :: "delta option"

datatype error = TypeError

definition withTitle :: "delta \<Rightarrow> string \<Rightarrow> CategoryDiff" where
  "withTitle d t =
     \<lparr>before = before d, after = after d, diff = diff d, percent = percent d,
      trend = trend d, title = t\<rparr>"

definition withId :: "delta \<Rightarrow> string \<Rightarrow> delta option \<Rightarrow> AuditDiff" where
  "withId d i n =
     \<lparr>before = before d, after = after d, diff = diff d, percent = percent d,
      trend = trend d, diff_id = i, numeric = n\<rparr>"

text \<open>
  One round of \<open>audits.forEach\<close>: the scores of both sides, then the entry and its
  optional numeric part. Reading \<open>beforeLhr.audits[id]\<close> throws when the before
  snapshot has no \<open>audits\<close>.
\<close>

definition auditDiffEntry :: "Audit \<Rightarrow> Audit \<Rightarrow> rat \<Rightarrow> rat \<Rightarrow> string \<Rightarrow> AuditDiff" where
  "auditDiffEntry ba aa b a i =
     withId (compareNumbers b a False) i
       (case (numericValue ba, numericValue aa) of
          (Some numB, Some numA) \<Rightarrow> Some (numericDelta numB numA)
        | _ \<Rightarrow> None)"

definition auditEntry ::
  "(string \<times> Audit) list \<Rightarrow> (string \<times> Audit) list \<Rightarrow> string \<Rightarrow> AuditDiff option" where
  "auditEntry bl am i =
     (case (map_of bl i, map_of am i) of
        (Some ba, Some aa) \<Rightarrow>
          (case (audit_score ba, audit_score aa) of
             (Some b, Some a) \<Rightarrow> Some (auditDiffEntry ba aa b a i)
           | _ \<Rightarrow> None)
      | _ \<Rightarrow> None)"

definition auditStep ::
  "(string \<times> Audit) list option \<Rightarrow> (string \<times> Audit) list \<Rightarrow> string \<Rightarrow>
   (string \<times> AuditDiff) list \<Rightarrow> error + (string \<times> AuditDiff) list" where
  "auditStep bm am i acc =
     (case bm of
        None \<Rightarrow> Inl TypeError
      | Some bl \<Rightarrow>
          (case auditEntry bl am i of
             Some entry \<Rightarrow> Inr (AList.update i entry acc)
           | None \<Rightarrow> Inr acc))"

fun foldE :: "('k \<Rightarrow> 'a \<Rightarrow> error + 'a) \<Rightarrow> 'k list \<Rightarrow> 'a \<Rightarrow> error + 'a" where
  "foldE f [] acc = Inr acc"
| "foldE f (k # ks) acc = (case f k acc of Inl e \<Rightarrow> Inl e | Inr acc' \<Rightarrow> foldE f ks acc')"

definition main_auditDiffs ::
  "LighthouseReport \<Rightarrow> LighthouseReport \<Rightarrow> error + (string \<times> AuditDiff) list" where
  "main_auditDiffs beforeLhr afterLhr =
     (case audits afterLhr of
        None \<Rightarrow> Inl TypeError
      | Some am \<Rightarrow> foldE (auditStep (audits beforeLhr) am) (map fst am) [])"

definition categoryEntry ::
  "(string \<times> Category) list \<Rightarrow> Category \<Rightarrow> string \<Rightarrow> CategoryDiff option" where
  "categoryEntry bl cat catId =
     (case (case map_of bl catId of None \<Rightarrow> None | Some bc \<Rightarrow> cat_score bc, cat_score cat) of
        (Some beforeScore, Some s) \<Rightarrow>
          Some (withTitle (compareNumbers beforeScore s True) (cat_title cat))
      | _ \<Rightarrow> None)"

definition categoryStep ::
  "(string \<times> Category) list option \<Rightarrow> (string \<times> Category) list \<Rightarrow> string \<Rightarrow>
   (string \<times> CategoryDiff) list \<Rightarrow> error + (string \<times> CategoryDiff) list" where
  "categoryStep bm am catId acc =
     (case map_of am catId of
        None \<Rightarrow> Inl TypeError
      | Some cat \<Rightarrow>
          (case bm of
             None \<Rightarrow> Inl TypeError
           | Some bl \<Rightarrow>
               (case categoryEntry bl cat catId of
                  Some entry \<Rightarrow> Inr (AList.update catId entry acc)
                | None \<Rightarrow> Inr acc)))"

definition main_categoryDiffs ::
  "LighthouseReport \<Rightarrow> LighthouseReport \<Rightarrow> error + (string \<times> CategoryDiff) list" where
  "main_categoryDiffs beforeLhr afterLhr =
     (case categories afterLhr of
        None \<Rightarrow> Inl TypeError
      | Some am \<Rightarrow> foldE (categoryStep (categories beforeLhr) am) (map fst am) [])"


section \<open>The report renderer\<close>

text \<open>
  A page is modelled by the values its template interpolates, in the order of the
  template; the fixed markup and the style sheet around them are left out. A
  callback that returns the empty string contributes nothing to the joined text
  and is \<open>None\<close> here. The three trend markers are the constructors of \<open>icon\<close>.
\<close>

fun filterE :: "('a \<Rightarrow> error + bool) \<Rightarrow> 'a list \<Rightarrow> error + 'a list" where
  "filterE p [] = Inr []"
| "filterE p (x # xs) =
     (case p x of
        Inl e \<Rightarrow> Inl e
      | Inr b \<Rightarrow>
          (case filterE p xs of
             Inl e \<Rightarrow> Inl e
           | Inr ys \<Rightarrow> Inr (if b then x # ys else ys)))"

fun someE :: "('a \<Rightarrow> error + bool) \<Rightarrow> 'a list \<Rightarrow> error + bool" where
  "someE p [] = Inr False"
| "someE p (x # xs) =
     (case p x of
        Inl e \<Rightarrow> Inl e
      | Inr b \<Rightarrow> if b then Inr True else someE p xs)"

fun mapE :: "('a \<Rightarrow> error + 'b) \<Rightarrow> 'a list \<Rightarrow> error + 'b list" where
  "mapE f [] = Inr []"
| "mapE f (x # xs) =
     (case f x of
        Inl e \<Rightarrow> Inl e
      | Inr y \<Rightarrow> (case mapE f xs of Inl e \<Rightarrow> Inl e | Inr ys \<Rightarrow> Inr (y # ys)))"

definition somes :: "'a option list \<Rightarrow> 'a list" where
  "somes xs = List.map_filter (\<lambda>x. x) xs"

definition orElse :: "string option \<Rightarrow> string \<Rightarrow> string" where
  "orElse v d = (case v of None \<Rightarrow> d | Some s \<Rightarrow> if s = [] then d else s)"

datatype icon = UpMarker | DownMarker | NeutralMarker

definition scoreColor :: "rat option \<Rightarrow> string" where
  "scoreColor score =
     (case score of
        None \<Rightarrow> ''#b0b0b0''
      | Some s \<Rightarrow>
          if 9 / 10 \<le> s then ''#0cce6b''
          else if 1 / 2 \<le> s then ''#ffa400''
          else ''#ff4e42'')"

definition trendIcon :: "trend \<Rightarrow> icon" where
  "trendIcon t = (if t = Better then UpMarker else if t = Worse then DownMarker else NeutralMarker)"

definition trendColor :: "trend \<Rightarrow> string" where
  "trendColor t = (if t = Better then ''#0cce6b'' else if t = Worse then ''#ff4e42'' else ''#b0b0b0'')"

definition trendBg :: "trend \<Rightarrow> string" where
  "trendBg t = (if t = Better then ''#e8f5e9'' else if t = Worse then ''#ffebee'' else ''#f1f3f4'')"

definition pushRef :: "(string \<times> AuditRef list) list \<Rightarrow> AuditRef \<Rightarrow> (string \<times> AuditRef list) list" where
  "pushRef groups ref =
     (let g = orElse (ref_group ref) ''Other''
      in case map_of groups g of
           None \<Rightarrow> AList.update g [ref] groups
         | Some refs \<Rightarrow> AList.update g (refs @ [ref]) groups)"

definition groupAuditRefsByGroup :: "AuditRef list \<Rightarrow> (string \<times> AuditRef list) list" where
  "groupAuditRefsByGroup refs = foldl pushRef [] refs"

text \<open>
  \<open>toLowerCase\<close> and \<open>trim\<close> on byte strings: the ASCII letters are folded and the
  ASCII white space and line terminators are stripped.
\<close>

definition lower_char :: "char \<Rightarrow> char" where
  "lower_char c =
     (let n = (of_char c :: nat) in if 65 \<le> n \<and> n \<le> 90 then char_of (n + 32) else c)"

definition toLowerCase :: "string \<Rightarrow> string" where
  "toLowerCase s = map lower_char s"

definition is_space :: "char \<Rightarrow> bool" where
  "is_space c = ((of_char c :: nat) \<in> {9, 10, 11, 12, 13, 32})"

definition trim :: "string \<Rightarrow> string" where
  "trim s = rev (dropWhile is_space (rev (dropWhile is_space s)))"

definition fallback :: "(string \<times> string) list" where
  "fallback =
     [(''metrics'', ''Metrics''), (''diagnostics'', ''Diagnostics''),
      (''hidden'', ''Insights''), (''Other'', ''Other'')]"

definition groupEntry :: "LighthouseReport \<Rightarrow> string \<Rightarrow> CategoryGroup option" where
  "groupEntry lhr groupId =
     (case categoryGroups lhr of None \<Rightarrow> None | Some m \<Rightarrow> map_of m groupId)"

definition getFriendlyGroupName :: "string \<Rightarrow> LighthouseReport \<Rightarrow> string" where
  "getFriendlyGroupName groupId lhr =
     (case groupEntry lhr groupId of
        Some g \<Rightarrow>
          (let t = map_option trim (group_title g)
           in if toLowerCase groupId = ''hidden'' \<and> (t = None \<or> t = Some [])
              then ''Insights''
              else orElse t groupId)
      | None \<Rightarrow>
          if toLowerCase groupId = ''hidden'' then ''Insights''
          else (case map_of fallback groupId of
                  Some v \<Rightarrow> if v = [] then groupId else v
                | None \<Rightarrow> groupId))"

type_synonym trendMark = "string \<times> icon \<times> numtext"

definition markOf :: "'a delta_scheme \<Rightarrow> trendMark" where
  "markOf d = (trendColor (trend d), trendIcon (trend d), percent d)"

definition scoreText :: "rat option \<Rightarrow> numtext" where
  "scoreText score = toFixed 0 ((case score of None \<Rightarrow> 0 | Some s \<Rightarrow> s) * 100)"

record SummaryCard =
  card_color :: string
  card_title :: string
  card_score :: numtext
  card_diff :: "trendMark option"

definition renderCategoryHeader ::
  "Category list \<Rightarrow> (string \<times> CategoryDiff) list \<Rightarrow> SummaryCard list" where
  "renderCategoryHeader cats categoryDiffs =
     map (\<lambda>cat.
            \<lparr>card_color = scoreColor (cat_score cat), card_title = cat_title cat,
             card_score = scoreText (cat_score cat),
             card_diff = map_option markOf (map_of categoryDiffs (cat_id cat))\<rparr>) cats"

datatype display = Shown string | Seconds numtext | Blank

datatype diffValue =
    NoDiffValue
  | NumericDiff string string numtext string
  | PercentDiff string "numtext option"

record AuditItem =
  item_bg :: string
  item_color :: string
  item_icon :: icon
  item_title :: string
  item_before :: display
  item_after :: display
  item_diff :: diffValue
  item_score_color :: string
  item_score :: numtext

definition displayOf :: "Audit \<Rightarrow> display" where
  "displayOf a =
     (let numericText = (case numericValue a of
                           Some v \<Rightarrow> Seconds (toFixed 1 (v / 1000))
                         | None \<Rightarrow> Blank)
      in case displayValue a of
           None \<Rightarrow> numericText
         | Some s \<Rightarrow> if s = [] then numericText else Shown s)"

definition renderDiffAudit ::
  "AuditRef \<Rightarrow> Audit \<Rightarrow> Audit \<Rightarrow> AuditDiff option \<Rightarrow> AuditItem option" where
  "renderDiffAudit ref beforeAudit afterAudit d =
     (case audit_score afterAudit of
        None \<Rightarrow> None
      | Some score \<Rightarrow>
          if score = 1 then None
          else
            let trend0 = (case d of Some x \<Rightarrow> trend x | None \<Rightarrow> Equal);
                (t, diffValue) =
                  (case (numericValue beforeAudit, numericValue afterAudit) of
                     (Some nb, Some na) \<Rightarrow>
                       let unit = (if numericUnit afterAudit = Some ''millisecond'' then ''ms''
                                   else orElse (numericUnit afterAudit) []);
                           rawDiff = na - nb;
                           sign = (if 0 < rawDiff then ''+'' else []);
                           t1 = trend (compareNumbers nb na False)
                       in (t1, NumericDiff (trendColor t1) sign (show_number (math_round rawDiff)) unit)
                   | _ \<Rightarrow>
                       (case d of
                          Some x \<Rightarrow>
                            (trend0,
                             PercentDiff (trendColor trend0)
                               (if trend x = Equal then None else Some (percent x)))
                        | None \<Rightarrow> (trend0, NoDiffValue)))
            in Some \<lparr>item_bg = trendBg t, item_color = trendColor t, item_icon = trendIcon t,
                     item_title = audit_title afterAudit,
                     item_before = displayOf beforeAudit, item_after = displayOf afterAudit,
                     item_diff = diffValue,
                     item_score_color = scoreColor (Some score),
                     item_score = toFixed 0 (score * 100)\<rparr>)"

definition lookupAudit :: "LighthouseReport \<Rightarrow> string \<Rightarrow> error + Audit option" where
  "lookupAudit lhr k = (case audits lhr of None \<Rightarrow> Inl TypeError | Some m \<Rightarrow> Inr (map_of m k))"

text \<open>The filter callback shared by \<open>renderCategory\<close> and \<open>generateStepHTML\<close>.\<close>

definition isProblemRef :: "LighthouseReport \<Rightarrow> AuditRef \<Rightarrow> error + bool" where
  "isProblemRef lhrAfter ref =
     (case lookupAudit lhrAfter (ref_id ref) of
        Inl e \<Rightarrow> Inl e
      | Inr None \<Rightarrow> Inr False
      | Inr (Some afterAudit) \<Rightarrow>
          Inr (case audit_score afterAudit of None \<Rightarrow> False | Some s \<Rightarrow> s < 1))"

record GroupSection =
  grp_name :: string
  grp_count :: nat
  grp_items :: "AuditItem list"

record CategorySection =
  sec_color :: string
  sec_title :: string
  sec_score :: numtext
  sec_diff :: "trendMark option"
  sec_groups :: "GroupSection list"

definition renderRef ::
  "LighthouseReport \<Rightarrow> LighthouseReport \<Rightarrow> (string \<times> AuditDiff) list \<Rightarrow> AuditRef \<Rightarrow>
   error + AuditItem option" where
  "renderRef lhrBefore lhrAfter auditDiffs ref =
     (case lookupAudit lhrBefore (ref_id ref) of
        Inl e \<Rightarrow> Inl e
      | Inr beforeAudit \<Rightarrow>
          (case lookupAudit lhrAfter (ref_id ref) of
             Inl e \<Rightarrow> Inl e
           | Inr afterAudit \<Rightarrow>
               (case (beforeAudit, afterAudit) of
                  (Some b, Some a) \<Rightarrow>
                    Inr (renderDiffAudit ref b a (map_of auditDiffs (ref_id ref)))
                | _ \<Rightarrow> Inr None)))"

definition renderGroup ::
  "LighthouseReport \<Rightarrow> LighthouseReport \<Rightarrow> (string \<times> AuditDiff) list \<Rightarrow>
   string \<times> AuditRef list \<Rightarrow> error + GroupSection option" where
  "renderGroup lhrBefore lhrAfter auditDiffs entry =
     (case filterE (isProblemRef lhrAfter) (snd entry) of
        Inl e \<Rightarrow> Inl e
      | Inr failedRefs \<Rightarrow>
          if failedRefs = [] then Inr None
          else
            (case mapE (renderRef lhrBefore lhrAfter auditDiffs) failedRefs of
               Inl e \<Rightarrow> Inl e
             | Inr items \<Rightarrow>
                 Inr (Some \<lparr>grp_name = getFriendlyGroupName (fst entry) lhrAfter,
                            grp_count = length failedRefs,
                            grp_items = somes items\<rparr>)))"

definition renderCategory ::
  "Category \<Rightarrow> LighthouseReport \<Rightarrow> LighthouseReport \<Rightarrow> (string \<times> AuditDiff) list \<Rightarrow>
   (string \<times> CategoryDiff) list \<Rightarrow> error + CategorySection option" where
  "renderCategory category lhrBefore lhrAfter auditDiffs categoryDiffs =
     (case mapE (renderGroup lhrBefore lhrAfter auditDiffs)
             (groupAuditRefsByGroup (auditRefs category)) of
        Inl e \<Rightarrow> Inl e
      | Inr groupHtml \<Rightarrow>
          if somes groupHtml = [] then Inr None
          else Inr (Some \<lparr>sec_color = scoreColor (cat_score category),
                          sec_title = cat_title category,
                          sec_score = scoreText (cat_score category),
                          sec_diff = map_option markOf (map_of categoryDiffs (cat_id category)),
                          sec_groups = somes groupHtml\<rparr>))"

record StepPage =
  page_name :: string
  page_summary :: "SummaryCard list"
  page_sections :: "CategorySection list"

definition hasProblems :: "LighthouseReport \<Rightarrow> Category \<Rightarrow> error + bool" where
  "hasProblems lhrAfter cat =
     someE (\<lambda>entry. someE (isProblemRef lhrAfter) (snd entry))
       (groupAuditRefsByGroup (auditRefs cat))"

definition generateStepHTML ::
  "string \<Rightarrow> LighthouseReport \<Rightarrow> LighthouseReport \<Rightarrow> (string \<times> AuditDiff) list \<Rightarrow>
   (string \<times> CategoryDiff) list \<Rightarrow> error + StepPage" where
  "generateStepHTML stepName lhrBefore lhrAfter auditDiffs categoryDiffs =
     (case categories lhrAfter of
        None \<Rightarrow> Inl TypeError
      | Some cm \<Rightarrow>
          (case filterE (hasProblems lhrAfter) (map snd cm) of
             Inl e \<Rightarrow> Inl e
           | Inr catsWithProblems \<Rightarrow>
               (case mapE (\<lambda>cat. renderCategory cat lhrBefore lhrAfter auditDiffs categoryDiffs)
                       catsWithProblems of
                  Inl e \<Rightarrow> Inl e
                | Inr secs \<Rightarrow>
                    Inr \<lparr>page_name = stepName,
                         page_summary = renderCategoryHeader (map snd cm) categoryDiffs,
                         page_sections = somes secs\<rparr>)))"

definition problemList :: "StepPage \<Rightarrow> AuditItem list" where
  "problemList p = concat (map grp_items (concat (map sec_groups (page_sections p))))"


subsection \<open>The index page\<close>

record TimelineStep =
  ts_name :: string
  ts_categoryDiffs :: "(string \<times> CategoryDiff) list"

record CatCell =
  cell_href :: string
  cell_border :: string
  cell_before_color :: string
  cell_before :: numtext
  cell_after_color :: string
  cell_after :: numtext
  cell_mark :: trendMark

record TimelineRow =
  row_href :: string
  row_number :: string
  row_label :: string
  row_cells :: "CatCell option list"

record TimelinePage =
  tl_header :: "string list"
  tl_rows :: "TimelineRow list"

text \<open>A \<open>Set\<close> keeps the first occurrence of each key, in insertion order.\<close>

definition insertNew :: "string list \<Rightarrow> string \<Rightarrow> string list" where
  "insertNew seen k = (if k \<in> set seen then seen else seen @ [k])"

definition allCategoriesOf :: "TimelineStep list \<Rightarrow> string list" where
  "allCategoriesOf steps =
     foldl insertNew [] (concat (map (\<lambda>step. map fst (ts_categoryDiffs step)) steps))"

definition stepFile :: "nat \<Rightarrow> string" where
  "stepFile n = ''step-'' @ show_nat n @ ''.html''"

definition headerCell :: "TimelineStep list \<Rightarrow> string \<Rightarrow> error + string" where
  "headerCell steps cat =
     (case steps of
        [] \<Rightarrow> Inl TypeError
      | step0 # _ \<Rightarrow> Inr (orElse (map_option title (map_of (ts_categoryDiffs step0) cat)) cat))"

definition timelineCell :: "nat \<Rightarrow> CategoryDiff \<Rightarrow> CatCell" where
  "timelineCell i val =
     \<lparr>cell_href = stepFile i,
      cell_border = scoreColor (Some (after val)),
      cell_before_color = scoreColor (Some (before val)),
      cell_before = toFixed 0 (before val * 100),
      cell_after_color = scoreColor (Some (after val)),
      cell_after = toFixed 0 (after val * 100),
      cell_mark = markOf val\<rparr>"

definition timelineRow :: "string list \<Rightarrow> nat \<times> TimelineStep \<Rightarrow> TimelineRow" where
  "timelineRow allCategories entry =
     (let i = fst entry; step = snd entry
      in \<lparr>row_href = stepFile (i + 1),
          row_number = show_nat (i + 1),
          row_label = (if ts_name step = [] then ''Step '' @ show_nat i else ts_name step),
          row_cells =
            map (\<lambda>cat. map_option (timelineCell i) (map_of (ts_categoryDiffs step) cat))
              allCategories\<rparr>)"

definition generateTimelineHTML :: "TimelineStep list \<Rightarrow> error + TimelinePage" where
  "generateTimelineHTML steps =
     (let allCategories = allCategoriesOf steps
      in case mapE (headerCell steps) allCategories of
           Inl e \<Rightarrow> Inl e
         | Inr headerRow \<Rightarrow>
             Inr \<lparr>tl_header = headerRow,
                  tl_rows = map (timelineRow allCategories) (enumerate 0 steps)\<rparr>)"

text \<open>
  The specification's column header: the title of the first step that has a delta
  for the category.
\<close>

definition header_spec :: "TimelineStep list \<Rightarrow> string \<Rightarrow> string" where
  "header_spec steps cat =
     (case List.find (\<lambda>step. map_of (ts_categoryDiffs step) cat \<noteq> None) steps of
        None \<Rightarrow> cat
      | Some step \<Rightarrow> orElse (map_option title (map_of (ts_categoryDiffs step) cat)) cat)"


section \<open>The comparison driver\<close>

text \<open>
  \<open>main\<close> from the two parsed documents on: the steps of a document, the loop over
  the aligned pairs, and the files written into the output directory, by name and
  in the order of the \<open>writeFileSync\<close> calls.
\<close>

record Step =
  step_name :: "string option"
  lhr :: LighthouseReport

datatype Document = Flow "Step list" | Wrapped LighthouseReport | Bare LighthouseReport

fun stepsOf :: "Document \<Rightarrow> Step list" where
  "stepsOf (Flow steps) = steps"
| "stepsOf (Wrapped r) = [\<lparr>step_name = None, lhr = r\<rparr>]"
| "stepsOf (Bare r) = [\<lparr>step_name = None, lhr = r\<rparr>]"

datatype page = StepHTML StepPage | TimelineHTML TimelinePage

definition compareStep :: "nat \<Rightarrow> Step \<Rightarrow> Step \<Rightarrow> error + (TimelineStep \<times> string \<times> page)" where
  "compareStep i beforeStep afterStep =
     (case main_auditDiffs (lhr beforeStep) (lhr afterStep) of
        Inl e \<Rightarrow> Inl e
      | Inr auditDiffs \<Rightarrow>
          (case main_categoryDiffs (lhr beforeStep) (lhr afterStep) of
             Inl e \<Rightarrow> Inl e
           | Inr categoryDiffs \<Rightarrow>
               (let stepPage = i + 1
                in case generateStepHTML
                          (''Step '' @ show_nat stepPage @ '': '' @ orElse (step_name afterStep) [])
                          (lhr beforeStep) (lhr afterStep) auditDiffs categoryDiffs of
                     Inl e \<Rightarrow> Inl e
                   | Inr html \<Rightarrow>
                       Inr (\<lparr>ts_name = orElse (step_name afterStep) (''Step '' @ show_nat (i + 1)),
                             ts_categoryDiffs = categoryDiffs\<rparr>,
                            stepFile stepPage, StepHTML html))))"

function main_loop ::
  "Step list \<Rightarrow> Step list \<Rightarrow> nat \<Rightarrow> TimelineStep list \<times> (string \<times> page) list \<Rightarrow>
   error + (TimelineStep list \<times> (string \<times> page) list)" where
  "main_loop beforeSteps afterSteps i st =
     (if i < min (length beforeSteps) (length afterSteps)
      then (case compareStep i (beforeSteps ! i) (afterSteps ! i) of
              Inl e \<Rightarrow> Inl e
            | Inr r \<Rightarrow>
                main_loop beforeSteps afterSteps (i + 1)
                  (fst st @ [fst r], snd st @ [snd r]))
      else Inr st)"
  by pat_completeness auto
termination
  by (relation "measure (\<lambda>(bs, afs, i, st). min (length bs) (length afs) - i)") auto

declare main_loop.simps [simp del]

definition main :: "Document \<Rightarrow> Document \<Rightarrow> error + (string \<times> page) list" where
  "main beforeDoc afterDoc =
     (case main_loop (stepsOf beforeDoc) (stepsOf afterDoc) 0 ([], []) of
        Inl e \<Rightarrow> Inl e
      | Inr st \<Rightarrow>
          (case generateTimelineHTML (fst st) of
             Inl e \<Rightarrow> Inl e
           | Inr html \<Rightarrow> Inr (snd st @ [(''index.html'', TimelineHTML html)])))"


section \<open>The threshold assertion of the test helper\<close>

text \<open>
  The soft assertions and log lines of \<open>assertLighthouseFlowResultThresholds\<close>, in
  order. A soft assertion records its operands and never stops the run.
\<close>

record FlowAuditRef =
  weight :: rat

record FlowCategory =
  flow_score :: "rat option"
  flow_title :: string
  flow_auditRefs :: "FlowAuditRef list option"

record FlowStep =
  flow_name :: "string option"
  flow_categories :: "(string \<times> FlowCategory) list"

datatype event =
    Validating string
  | WarnNotFound string string
  | WarnZeroWeight string string
  | ExpectNotNull bool
  | LogOutcome bool
  | ExpectAtLeast rat rat

definition checkCategory ::
  "string \<Rightarrow> (string \<times> FlowCategory) list \<Rightarrow> string \<times> rat option \<Rightarrow> event list" where
  "checkCategory stepName cats entry =
     (case snd entry of
        None \<Rightarrow> []
      | Some threshold \<Rightarrow>
          (case map_of cats (fst entry) of
             None \<Rightarrow> [WarnNotFound (fst entry) stepName]
           | Some categoryData \<Rightarrow>
               (let allAuditsWeightZero =
                      (case flow_auditRefs categoryData of
                         None \<Rightarrow> False
                       | Some refs \<Rightarrow> list_all (\<lambda>ref. weight ref = 0) refs)
                in if (case flow_score categoryData of None \<Rightarrow> 0 | Some s \<Rightarrow> s) = 0
                      \<and> allAuditsWeightZero
                   then [WarnZeroWeight (fst entry) stepName]
                   else ExpectNotNull (flow_score categoryData \<noteq> None) #
                        (case flow_score categoryData of
                           None \<Rightarrow> []
                         | Some score \<Rightarrow>
                             (let actualScore = score * 100
                              in [LogOutcome (threshold \<le> actualScore),
                                  ExpectAtLeast actualScore threshold])))))"

definition assertLighthouseFlowResultThresholds ::
  "FlowStep list \<Rightarrow> (string \<times> rat option) list \<Rightarrow> event list" where
  "assertLighthouseFlowResultThresholds steps thresholds =
     concat (map (\<lambda>step.
                    (let stepName = orElse (flow_name step) ''Unnamed step''
                     in Validating stepName #
                        concat (map (checkCategory stepName (flow_categories step)) thresholds)))
              steps)"

fun isThresholdAssert :: "event \<Rightarrow> bool" where
  "isThresholdAssert (ExpectAtLeast a t) = True"
| "isThresholdAssert _ = False"

definition allZeroWeight :: "FlowCategory \<Rightarrow> bool" where
  "allZeroWeight c =
     (case flow_auditRefs c of None \<Rightarrow> False | Some refs \<Rightarrow> list_all (\<lambda>ref. weight ref = 0) refs)"


section \<open>Reading the claims\<close>




text \<open>The specification's audit that carries a numeric value and a numeric unit.\<close>

definition carries_numeric :: "Audit \<Rightarrow> bool" where
  "carries_numeric a = (numericValue a \<noteq> None \<and> numericUnit a \<noteq> None)"


text \<open>
  The group name as the specification resolves it: a usable title is a trimmed title
  that is not empty.
\<close>

definition usable_title :: "CategoryGroup \<Rightarrow> string option" where
  "usable_title g =
     (case group_title g of
        None \<Rightarrow> None
      | Some t \<Rightarrow> if trim t = [] then None else Some (trim t))"

definition friendly_spec :: "string \<Rightarrow> CategoryGroup option \<Rightarrow> string" where
  "friendly_spec groupId entry =
     (case entry of
        Some g \<Rightarrow>
          (case usable_title g of
             Some t \<Rightarrow> t
           | None \<Rightarrow> if toLowerCase groupId = ''hidden'' then ''Insights'' else groupId)
      | None \<Rightarrow>
          if toLowerCase groupId = ''hidden'' then ''Insights''
          else if groupId = ''metrics'' then ''Metrics''
          else if groupId = ''diagnostics'' then ''Diagnostics''
          else if groupId = ''Other'' then ''Other''
          else groupId)"

text \<open>
  The threshold check as the specification words it, skipped for an absent category
  or for one whose audit references all weigh zero, and as the code decides it.
\<close>

definition skipped_as_claimed :: "(string \<times> FlowCategory) list \<Rightarrow> string \<Rightarrow> bool" where
  "skipped_as_claimed cats cat =
     (case map_of cats cat of None \<Rightarrow> True | Some c \<Rightarrow> allZeroWeight c)"

definition threshold_rule ::
  "string \<Rightarrow> (string \<times> FlowCategory) list \<Rightarrow> string \<Rightarrow> rat \<Rightarrow> event list" where
  "threshold_rule stepName cats cat threshold =
     (case map_of cats cat of
        None \<Rightarrow> [WarnNotFound cat stepName]
      | Some c \<Rightarrow>
          if (flow_score c = None \<or> flow_score c = Some 0) \<and> allZeroWeight c
          then [WarnZeroWeight cat stepName]
          else (case flow_score c of
                  None \<Rightarrow> [ExpectNotNull False]
                | Some s \<Rightarrow>
                    [ExpectNotNull True, LogOutcome (threshold \<le> s * 100),
                     ExpectAtLeast (s * 100) threshold]))"



section \<open>Sample documents\<close>

text \<open>
  A one-step comparison: the largest-contentful-paint audit goes from 4000 to 2500
  and from score 0.5 to 0.75, the performance category from 0.70 to 0.95. The audits
  carry numeric values and no unit.
\<close>

definition sample_lcp_before :: Audit where
  "sample_lcp_before =
     \<lparr>audit_title = ''Largest Contentful Paint'', audit_score = Some (1 / 2),
      displayValue = None, numericValue = Some 4000, numericUnit = None\<rparr>"

definition sample_lcp_after :: Audit where
  "sample_lcp_after =
     \<lparr>audit_title = ''Largest Contentful Paint'', audit_score = Some (3 / 4),
      displayValue = None, numericValue = Some 2500, numericUnit = None\<rparr>"

definition sample_performance :: "rat \<Rightarrow> Category" where
  "sample_performance s =
     \<lparr>cat_id = ''performance'', cat_title = ''Performance'', cat_score = Some s,
      auditRefs = [\<lparr>ref_id = ''lcp'', ref_group = Some ''metrics''\<rparr>]\<rparr>"

definition sample_before :: LighthouseReport where
  "sample_before =
     \<lparr>audits = Some [(''lcp'', sample_lcp_before)],
      categories = Some [(''performance'', sample_performance (7 / 10))],
      categoryGroups = None\<rparr>"

definition sample_after :: LighthouseReport where
  "sample_after =
     \<lparr>audits = Some [(''lcp'', sample_lcp_after)],
      categories = Some [(''performance'', sample_performance (19 / 20))],
      categoryGroups = None\<rparr>"


text \<open>The deltas of the sample and the one problem item of its step page.\<close>

definition sample_audit_deltas :: "(string \<times> AuditDiff) list" where
  "sample_audit_deltas =
     [(''lcp'',
       withId (compareNumbers (1 / 2) (3 / 4) False) ''lcp'' (Some (numericDelta 4000 2500)))]"

definition sample_category_deltas :: "(string \<times> CategoryDiff) list" where
  "sample_category_deltas =
     [(''performance'', withTitle (compareNumbers (7 / 10) (19 / 20) True) ''Performance'')]"

definition sample_item :: AuditItem where
  "sample_item =
     \<lparr>item_bg = ''#e8f5e9'', item_color = ''#0cce6b'', item_icon = UpMarker,
      item_title = ''Largest Contentful Paint'',
      item_before = Seconds (Fixed ''4.0''), item_after = Seconds (Fixed ''2.5''),
      item_diff = NumericDiff ''#0cce6b'' [] (Fixed ''-1500'') [],
      item_score_color = ''#ffa400'', item_score = Fixed ''75''\<rparr>"



text \<open>Two index rows whose first step has no category delta.\<close>

definition sample_timeline :: "TimelineStep list" where
  "sample_timeline =
     [\<lparr>ts_name = ''Step 1'', ts_categoryDiffs = []\<rparr>,
      \<lparr>ts_name = ''Step 2'', ts_categoryDiffs = sample_category_deltas\<rparr>]"

text \<open>Flow categories for the threshold assertion.\<close>

definition flow_category :: "rat option \<Rightarrow> rat \<Rightarrow> FlowCategory" where
  "flow_category s w =
     \<lparr>flow_score = s, flow_title = ''Performance'', flow_auditRefs = Some [\<lparr>weight = w\<rparr>]\<rparr>"

definition sample_flow_step :: FlowStep where
  "sample_flow_step =
     \<lparr>flow_name = Some ''home'',
      flow_categories =
        [(''performance'', flow_category (Some (1 / 2)) 1),
         (''seo'', flow_category (Some 1) 1),
         (''pwa'', flow_category (Some 0) 0)]\<rparr>"

definition sample_groups :: LighthouseReport where
  "sample_groups =
     \<lparr>audits = Some [], categories = Some [],
      categoryGroups =
        Some [(''budgets'', \<lparr>group_title = Some '' Budgets ''\<rparr>),
              (''Hidden'', \<lparr>group_title = Some '' ''\<rparr>),
              (''metrics'', \<lparr>group_title = None\<rparr>)]\<rparr>"





section \<open>Properties of the number texts\<close>

lemma digit_cases: "n < 10 \<Longrightarrow> n \<in> {0, 1, 2, 3, 4, 5, 6, 7, 8, 9 :: nat}"
  by auto

lemma digit_val_digit: "n < 10 \<Longrightarrow> digit_val (digit n) = n"
  by (drule digit_cases) (auto simp: digit_def digit_val_def)


lemma val_digits_append:
  "val_digits (xs @ ys) = val_digits xs * 10 ^ length ys + val_digits ys"
  unfolding val_digits_def
  by (induction ys rule: rev_induct) (simp_all add: algebra_simps)

lemma val_digits_show_nat: "val_digits (show_nat n) = n"
proof (induction n rule: show_nat.induct)
  case (1 n)
  show ?case
  proof (cases "n < 10")
    case True
    then show ?thesis
      by (simp add: show_nat.simps [of n] val_digits_def digit_val_digit)
  next
    case False
    have "val_digits (show_nat n) =
          val_digits (show_nat (n div 10)) * 10 + digit_val (digit (n mod 10))"
      using False
      by (simp add: show_nat.simps [of n] val_digits_append) (simp add: val_digits_def)
    also have "\<dots> = n"
      using 1 False by (simp add: digit_val_digit)
    finally show ?thesis .
  qed
qed



























section \<open>The delta engine: trend and percent\<close>


lemma set_update_cases:
  "(k', v') \<in> set (AList.update k v al) \<Longrightarrow> (k', v') = (k, v) \<or> (k', v') \<in> set al"
  by (induction al) (auto split: if_splits)

lemma delta_fields_compareNumbers:
  "before (compareNumbers b a s) = b" "after (compareNumbers b a s) = a"
  "diff (compareNumbers b a s) = a - b"
  by (simp_all add: compareNumbers_def Let_def)

lemma delta_fields_numericDelta:
  "before (numericDelta b a) = b" "after (numericDelta b a) = a"
  "diff (numericDelta b a) = a - b"
  by (simp_all add: numericDelta_def Let_def)

lemma trend_compareNumbers: "trend (compareNumbers b a s) = trend_spec (a - b) s"
  by (simp add: compareNumbers_def trend_spec_def Let_def)

lemma trend_numericDelta: "trend (numericDelta b a) = trend_spec (a - b) False"
  by (simp add: numericDelta_def trend_spec_def Let_def)




text \<open>
  C2. The trend is a function of the difference and the polarity alone: a zero
  difference is equal in both modes; in score mode a positive difference is better
  and a negative one worse; in numeric-metric mode it is the other way round.
  \<open>compareNumbers\<close> and the inline numeric delta of \<open>main\<close> both compute it.
\<close>

theorem trend_classification:
  "trend (compareNumbers b a isScore) = trend_spec (diff (compareNumbers b a isScore)) isScore \<and>
   diff (compareNumbers b a isScore) = a - b \<and>
   trend (numericDelta numB numA) = trend_spec (diff (numericDelta numB numA)) False \<and>
   diff (numericDelta numB numA) = numA - numB \<and>
   trend_spec 0 isScore = Equal \<and>
   trend_spec d True = (if d = 0 then Equal else if 0 < d then Better else Worse) \<and>
   trend_spec d False = (if d = 0 then Equal else if d < 0 then Better else Worse)"
  by (simp add: trend_compareNumbers trend_numericDelta delta_fields_compareNumbers
      delta_fields_numericDelta trend_spec_def)

theorem trend_classification_witness:
  "trend (compareNumbers (7 / 10) (19 / 20) True) = Better \<and>
   trend (compareNumbers (19 / 20) (7 / 10) True) = Worse \<and>
   trend (compareNumbers (1 / 2) (1 / 2) True) = Equal \<and>
   trend (numericDelta 4000 2500) = Better \<and>
   trend (numericDelta 2500 4000) = Worse \<and>
   trend (numericDelta 2500 2500) = Equal"
  using trend_classification [of "7 / 10" "19 / 20" True 4000 2500 0]
    trend_classification [of "19 / 20" "7 / 10" True 2500 4000 0]
    trend_classification [of "1 / 2" "1 / 2" True 2500 2500 0]
  by (simp add: trend_spec_def)


lemma sample_auditDiffs:
  "main_auditDiffs sample_before sample_after =
     Inr [(''lcp'',
           withId (compareNumbers (1 / 2) (3 / 4) False) ''lcp'' (Some (numericDelta 4000 2500)))]"
  by (simp add: main_auditDiffs_def sample_before_def sample_after_def auditStep_def
      auditEntry_def auditDiffEntry_def sample_lcp_before_def sample_lcp_after_def)






section \<open>The delta engine: which entries exist\<close>

lemma map_of_Some_key: "map_of xs k = Some y \<Longrightarrow> k \<in> fst ` set xs"
  by (force dest: map_of_SomeD)

lemma foldE_auditStep:
  "\<exists>r. foldE (auditStep (Some bl) am) ids acc = Inr r \<and>
       (\<forall>i. map_of r i =
              (if i \<in> set ids
               then (case auditEntry bl am i of Some e \<Rightarrow> Some e | None \<Rightarrow> map_of acc i)
               else map_of acc i))"
proof (induction ids arbitrary: acc)
  case Nil
  show ?case by simp
next
  case (Cons k ks)
  let ?acc' = "case auditEntry bl am k of Some e \<Rightarrow> AList.update k e acc | None \<Rightarrow> acc"
  have s: "auditStep (Some bl) am k acc = Inr ?acc'"
    by (simp add: auditStep_def split: option.splits)
  from Cons.IH [of ?acc'] obtain r where
    r: "foldE (auditStep (Some bl) am) ks ?acc' = Inr r" and
    m: "\<forall>i. map_of r i =
              (if i \<in> set ks
               then (case auditEntry bl am i of Some e \<Rightarrow> Some e | None \<Rightarrow> map_of ?acc' i)
               else map_of ?acc' i)"
    by blast
  have "foldE (auditStep (Some bl) am) (k # ks) acc = Inr r"
    using s r by simp
  moreover have "\<forall>i. map_of r i =
              (if i \<in> set (k # ks)
               then (case auditEntry bl am i of Some e \<Rightarrow> Some e | None \<Rightarrow> map_of acc i)
               else map_of acc i)"
    using m by (auto simp: update_conv' split: option.splits)
  ultimately show ?case by blast
qed


lemma main_auditDiffs_total:
  assumes "audits beforeLhr = Some bl" "audits afterLhr = Some am"
  shows "\<exists>r. main_auditDiffs beforeLhr afterLhr = Inr r \<and>
           (\<forall>i. map_of r i = (if i \<in> fst ` set am then auditEntry bl am i else None))"
proof -
  from foldE_auditStep [of bl am "map fst am" "[]"] obtain r where
    "foldE (auditStep (Some bl) am) (map fst am) [] = Inr r" and
    "\<forall>i. map_of r i =
              (if i \<in> set (map fst am)
               then (case auditEntry bl am i of Some e \<Rightarrow> Some e | None \<Rightarrow> map_of [] i)
               else map_of [] i)"
    by blast
  then show ?thesis
    using assms by (auto simp: main_auditDiffs_def split: option.splits)
qed


text \<open>
  C3. For an audit identifier of \<open>after.audits\<close> whose before and after scores are
  both present, the delta entry exists and carries a secondary numeric delta exactly
  when both audits carry a numeric value; the numeric unit is not consulted. The
  numeric delta has \<open>diff = after - before\<close> and the polarity in which lower is
  better.
\<close>

theorem numeric_delta_when_both_values:
  assumes "audits beforeLhr = Some bl" and "audits afterLhr = Some am"
    and "map_of bl i = Some ba" and "map_of am i = Some aa"
    and "audit_score ba = Some b" and "audit_score aa = Some a"
  shows "\<exists>auditDiffs d.
           main_auditDiffs beforeLhr afterLhr = Inr auditDiffs \<and>
           map_of auditDiffs i = Some d \<and>
           numeric d =
             (case (numericValue ba, numericValue aa) of
                (Some numB, Some numA) \<Rightarrow> Some (numericDelta numB numA)
              | _ \<Rightarrow> None) \<and>
           ((numeric d \<noteq> None) = (numericValue ba \<noteq> None \<and> numericValue aa \<noteq> None)) \<and>
           diff (numericDelta numB numA) = numA - numB \<and>
           trend (numericDelta numB numA) = trend_spec (numA - numB) False"
proof -
  from main_auditDiffs_total [OF assms(1,2)] obtain r where
    r: "main_auditDiffs beforeLhr afterLhr = Inr r" and
    m: "\<forall>i. map_of r i = (if i \<in> fst ` set am then auditEntry bl am i else None)"
    by blast
  have "i \<in> fst ` set am"
    using assms(4) by (rule map_of_Some_key)
  with m have "map_of r i = Some (auditDiffEntry ba aa b a i)"
    using assms(3-6) by (simp add: auditEntry_def)
  moreover have "numeric (auditDiffEntry ba aa b a i) =
             (case (numericValue ba, numericValue aa) of
                (Some numB, Some numA) \<Rightarrow> Some (numericDelta numB numA)
              | _ \<Rightarrow> None)"
    by (simp add: auditDiffEntry_def withId_def)
  ultimately show ?thesis
    using r
    by (auto simp: delta_fields_numericDelta trend_numericDelta split: option.splits)
qed

theorem numeric_delta_when_both_values_witness:
  "\<exists>auditDiffs d.
     main_auditDiffs sample_before sample_after = Inr auditDiffs \<and>
     map_of auditDiffs ''lcp'' = Some d \<and>
     numeric d = Some (numericDelta 4000 2500) \<and>
     diff (numericDelta 4000 2500) = - 1500 \<and>
     trend (numericDelta 4000 2500) = Better"
proof -
  have 1: "audits sample_before = Some [(''lcp'', sample_lcp_before)]"
    by (simp add: sample_before_def)
  have 2: "audits sample_after = Some [(''lcp'', sample_lcp_after)]"
    by (simp add: sample_after_def)
  have 3: "map_of [(''lcp'', sample_lcp_before)] ''lcp'' = Some sample_lcp_before"
    by simp
  have 4: "map_of [(''lcp'', sample_lcp_after)] ''lcp'' = Some sample_lcp_after"
    by simp
  have 5: "audit_score sample_lcp_before = Some (1 / 2)"
    by (simp add: sample_lcp_before_def)
  have 6: "audit_score sample_lcp_after = Some (3 / 4)"
    by (simp add: sample_lcp_after_def)
  from numeric_delta_when_both_values [OF 1 2 3 4 5 6, of 4000 2500] show ?thesis
    by (auto simp: sample_lcp_before_def sample_lcp_after_def trend_spec_def)
qed

text \<open>
  The sample audits have numeric values and no unit, and their entry has a numeric
  delta: the units do not decide.
\<close>

theorem numeric_delta_without_units:
  "main_auditDiffs sample_before sample_after =
     Inr [(''lcp'',
           withId (compareNumbers (1 / 2) (3 / 4) False) ''lcp'' (Some (numericDelta 4000 2500)))] \<and>
   \<not> ((numeric (withId (compareNumbers (1 / 2) (3 / 4) False) ''lcp''
                  (Some (numericDelta 4000 2500))) \<noteq> None) =
       (carries_numeric sample_lcp_before \<and> carries_numeric sample_lcp_after))"
  by (simp add: sample_auditDiffs withId_def carries_numeric_def sample_lcp_before_def)

section \<open>The step page\<close>




lemma filterE_sound:
  "filterE p xs = Inr ys \<Longrightarrow> y \<in> set ys \<Longrightarrow> y \<in> set xs \<and> p y = Inr True"
proof (induction xs arbitrary: ys)
  case Nil
  then show ?case by simp
next
  case (Cons x xs)
  from Cons.prems(1) obtain b zs where
    b: "p x = Inr b" and zs: "filterE p xs = Inr zs" and ys: "ys = (if b then x # zs else zs)"
    by (auto split: sum.splits)
  show ?case
  proof (cases "y \<in> set zs")
    case True
    with Cons.IH [OF zs] show ?thesis by simp
  next
    case False
    with Cons.prems(2) ys have "b \<and> y = x" by (auto split: if_splits)
    with b show ?thesis by simp
  qed
qed

lemma mapE_sound:
  "mapE f xs = Inr ys \<Longrightarrow> y \<in> set ys \<Longrightarrow> \<exists>x\<in>set xs. f x = Inr y"
proof (induction xs arbitrary: ys)
  case Nil
  then show ?case by simp
next
  case (Cons x xs)
  from Cons.prems(1) obtain z zs where
    z: "f x = Inr z" and zs: "mapE f xs = Inr zs" and ys: "ys = z # zs"
    by (auto split: sum.splits)
  show ?case
  proof (cases "y \<in> set zs")
    case True
    with Cons.IH [OF zs] show ?thesis by auto
  next
    case False
    with Cons.prems(2) ys have "y = z" by simp
    with z show ?thesis by simp
  qed
qed

lemma length_mapE: "mapE f xs = Inr ys \<Longrightarrow> length ys = length xs"
  by (induction xs arbitrary: ys) (auto split: sum.splits)

lemma set_somes: "set (somes xs) = {x. Some x \<in> set xs}"
  unfolding somes_def by (induction xs) (auto split: option.splits)

lemma pushRef_refs:
  assumes "\<forall>(g, refs)\<in>set acc. set refs \<subseteq> A" "ref \<in> A"
  shows "\<forall>(g, refs)\<in>set (pushRef acc ref). set refs \<subseteq> A"
proof (cases "map_of acc (orElse (ref_group ref) ''Other'')")
  case None
  then show ?thesis
    using assms by (auto simp: pushRef_def dest!: set_update_cases)
next
  case (Some rs)
  then have "set rs \<subseteq> A"
    using assms(1) by (auto dest!: map_of_SomeD)
  with Some show ?thesis
    using assms by (auto simp: pushRef_def dest!: set_update_cases)
qed

lemma foldl_pushRef_refs:
  "\<forall>(g, refs)\<in>set acc. set refs \<subseteq> A \<Longrightarrow> set rs \<subseteq> A \<Longrightarrow>
   \<forall>(g, refs)\<in>set (foldl pushRef acc rs). set refs \<subseteq> A"
proof (induction rs arbitrary: acc)
  case Nil
  then show ?case by simp
next
  case (Cons r rs)
  from Cons.prems have "\<forall>(g, refs)\<in>set (pushRef acc r). set refs \<subseteq> A"
    by (intro pushRef_refs) auto
  with Cons show ?case by simp
qed

lemma group_refs:
  "entry \<in> set (groupAuditRefsByGroup rs) \<Longrightarrow> set (snd entry) \<subseteq> set rs"
proof -
  assume e: "entry \<in> set (groupAuditRefsByGroup rs)"
  have "\<forall>(g, refs)\<in>set (foldl pushRef [] rs). set refs \<subseteq> set rs"
    by (rule foldl_pushRef_refs) simp_all
  moreover from e have "entry \<in> set (foldl pushRef [] rs)"
    by (simp add: groupAuditRefsByGroup_def)
  ultimately have "case entry of (g, refs) \<Rightarrow> set refs \<subseteq> set rs"
    by (rule bspec)
  then show ?thesis
    by (cases entry) simp
qed








lemma renderRef_Some:
  assumes "renderRef lb la ads ref = Inr (Some item)"
  shows "\<exists>b a. lookupAudit lb (ref_id ref) = Inr (Some b) \<and>
           lookupAudit la (ref_id ref) = Inr (Some a) \<and>
           renderDiffAudit ref b a (map_of ads (ref_id ref)) = Some item"
  using assms by (auto simp: renderRef_def split: sum.splits option.splits)

lemma isProblemRef_True:
  assumes "isProblemRef la ref = Inr True" "lookupAudit la (ref_id ref) = Inr (Some a)"
  shows "\<exists>s. audit_score a = Some s \<and> s < 1"
  using assms by (auto simp: isProblemRef_def split: option.splits)

lemma renderGroup_item:
  assumes "renderGroup lb la ads entry = Inr (Some grp)" "item \<in> set (grp_items grp)"
  shows "\<exists>ref\<in>set (snd entry).
           isProblemRef la ref = Inr True \<and> renderRef lb la ads ref = Inr (Some item)"
proof -
  from assms(1) obtain failedRefs items where
    f: "filterE (isProblemRef la) (snd entry) = Inr failedRefs" and
    m: "mapE (renderRef lb la ads) failedRefs = Inr items" and
    g: "grp_items grp = somes items"
    by (auto simp: renderGroup_def split: sum.splits if_splits)
  from assms(2) g have "Some item \<in> set items" by (simp add: set_somes)
  from mapE_sound [OF m this] obtain ref where
    ref: "ref \<in> set failedRefs" and r: "renderRef lb la ads ref = Inr (Some item)"
    by blast
  from filterE_sound [OF f ref] r show ?thesis by blast
qed

lemma renderCategory_group:
  assumes "renderCategory cat lb la ads cds = Inr (Some sec)" "grp \<in> set (sec_groups sec)"
  shows "\<exists>entry\<in>set (groupAuditRefsByGroup (auditRefs cat)).
           renderGroup lb la ads entry = Inr (Some grp)"
proof -
  from assms(1) obtain groupHtml where
    m: "mapE (renderGroup lb la ads) (groupAuditRefsByGroup (auditRefs cat)) = Inr groupHtml"
    and g: "sec_groups sec = somes groupHtml"
    by (auto simp: renderCategory_def split: sum.splits if_splits)
  from assms(2) g have "Some grp \<in> set groupHtml" by (simp add: set_somes)
  from mapE_sound [OF m this] show ?thesis .
qed

lemma generateStepHTML_section:
  assumes "generateStepHTML nm lb la ads cds = Inr html" "sec \<in> set (page_sections html)"
  shows "\<exists>cm cat. categories la = Some cm \<and> cat \<in> snd ` set cm \<and>
           renderCategory cat lb la ads cds = Inr (Some sec)"
proof -
  from assms(1) obtain cm cats secs where
    cm: "categories la = Some cm" and
    f: "filterE (hasProblems la) (map snd cm) = Inr cats" and
    m: "mapE (\<lambda>cat. renderCategory cat lb la ads cds) cats = Inr secs" and
    p: "page_sections html = somes secs"
    by (auto simp: generateStepHTML_def split: option.splits sum.splits)
  from assms(2) p have "Some sec \<in> set secs" by (simp add: set_somes)
  from mapE_sound [OF m this] obtain cat where
    cat: "cat \<in> set cats" and r: "renderCategory cat lb la ads cds = Inr (Some sec)"
    by blast
  from filterE_sound [OF f cat] have "cat \<in> snd ` set cm" by simp
  with cm r show ?thesis by blast
qed

lemma renderDiffAudit_unscored:
  "renderDiffAudit ref b (a\<lparr>audit_score := None\<rparr>) d = None"
  "renderDiffAudit ref b (a\<lparr>audit_score := Some 1\<rparr>) d = None"
  by (simp_all add: renderDiffAudit_def)

text \<open>
  C6. An audit whose after score is null or exactly 1 never appears in the problem
  list of a rendered step page: every listed item was rendered from an audit
  reference of an after category whose after audit has a score below 1, and
  \<open>renderDiffAudit\<close> renders nothing for a null or perfect score whatever selected
  the audit.
\<close>

theorem problem_list_excludes_null_and_perfect:
  assumes "generateStepHTML stepName lhrBefore lhrAfter auditDiffs categoryDiffs = Inr html"
    and "item \<in> set (problemList html)"
  shows "(\<exists>cm cat ref b a s.
            categories lhrAfter = Some cm \<and> cat \<in> snd ` set cm \<and> ref \<in> set (auditRefs cat) \<and>
            lookupAudit lhrBefore (ref_id ref) = Inr (Some b) \<and>
            lookupAudit lhrAfter (ref_id ref) = Inr (Some a) \<and>
            renderDiffAudit ref b a (map_of auditDiffs (ref_id ref)) = Some item \<and>
            audit_score a = Some s \<and> s < 1 \<and>
            audit_score a \<noteq> None \<and> audit_score a \<noteq> Some 1) \<and>
         renderDiffAudit ref0 b0 (a0\<lparr>audit_score := None\<rparr>) d0 = None \<and>
         renderDiffAudit ref0 b0 (a0\<lparr>audit_score := Some 1\<rparr>) d0 = None"
proof -
  from assms(2) obtain sec grp where
    sec: "sec \<in> set (page_sections html)" and grp: "grp \<in> set (sec_groups sec)" and
    item: "item \<in> set (grp_items grp)"
    by (auto simp: problemList_def)
  from generateStepHTML_section [OF assms(1) sec] obtain cm cat where
    cm: "categories lhrAfter = Some cm" and cat: "cat \<in> snd ` set cm" and
    rc: "renderCategory cat lhrBefore lhrAfter auditDiffs categoryDiffs = Inr (Some sec)"
    by blast
  from renderCategory_group [OF rc grp] obtain entry where
    entry: "entry \<in> set (groupAuditRefsByGroup (auditRefs cat))" and
    rg: "renderGroup lhrBefore lhrAfter auditDiffs entry = Inr (Some grp)"
    by blast
  from renderGroup_item [OF rg item] obtain ref where
    ref: "ref \<in> set (snd entry)" and pr: "isProblemRef lhrAfter ref = Inr True" and
    rr: "renderRef lhrBefore lhrAfter auditDiffs ref = Inr (Some item)"
    by blast
  from group_refs [OF entry] ref have ref': "ref \<in> set (auditRefs cat)" by blast
  from renderRef_Some [OF rr] obtain b a where
    b: "lookupAudit lhrBefore (ref_id ref) = Inr (Some b)" and
    a: "lookupAudit lhrAfter (ref_id ref) = Inr (Some a)" and
    rd: "renderDiffAudit ref b a (map_of auditDiffs (ref_id ref)) = Some item"
    by blast
  from isProblemRef_True [OF pr a] obtain s where s: "audit_score a = Some s" "s < 1"
    by blast
  from cm cat ref' b a rd s have
    "\<exists>cm cat ref b a s.
            categories lhrAfter = Some cm \<and> cat \<in> snd ` set cm \<and> ref \<in> set (auditRefs cat) \<and>
            lookupAudit lhrBefore (ref_id ref) = Inr (Some b) \<and>
            lookupAudit lhrAfter (ref_id ref) = Inr (Some a) \<and>
            renderDiffAudit ref b a (map_of auditDiffs (ref_id ref)) = Some item \<and>
            audit_score a = Some s \<and> s < 1 \<and>
            audit_score a \<noteq> None \<and> audit_score a \<noteq> Some 1"
    by (intro exI [of _ cm] exI [of _ cat] exI [of _ ref] exI [of _ b] exI [of _ a]
        exI [of _ s]) simp
  then show ?thesis by (simp add: renderDiffAudit_unscored)
qed

lemma sample_page_items:
  "(case generateStepHTML ''Step 1: '' sample_before sample_after sample_audit_deltas
           sample_category_deltas of
      Inl e \<Rightarrow> False
    | Inr html \<Rightarrow> problemList html = [sample_item])"
  by code_simp

theorem problem_list_excludes_null_and_perfect_witness:
  "\<exists>cm cat ref b a s.
     categories sample_after = Some cm \<and> cat \<in> snd ` set cm \<and> ref \<in> set (auditRefs cat) \<and>
     lookupAudit sample_before (ref_id ref) = Inr (Some b) \<and>
     lookupAudit sample_after (ref_id ref) = Inr (Some a) \<and>
     renderDiffAudit ref b a (map_of sample_audit_deltas (ref_id ref)) = Some sample_item \<and>
     audit_score a = Some s \<and> s < 1 \<and>
     audit_score a \<noteq> None \<and> audit_score a \<noteq> Some 1"
proof -
  from sample_page_items obtain html where
    g: "generateStepHTML ''Step 1: '' sample_before sample_after sample_audit_deltas
          sample_category_deltas = Inr html" and
    p: "problemList html = [sample_item]"
    by (auto split: sum.splits)
  from p have m: "sample_item \<in> set (problemList html)" by simp
  from problem_list_excludes_null_and_perfect [OF g m] show ?thesis
    by (rule conjunct1)
qed




section \<open>Thresholds, group names and the index header\<close>

text \<open>
  C4. For a category of the thresholds mapping with a threshold, the check is skipped
  when the step lacks the category, or when its score is 0 or null and every audit
  reference weighs zero; otherwise a soft assertion that the score is not null is
  made, and for a score that is not null the soft assertion that the score scaled to
  0-100 reaches the threshold. A soft assertion that fails does not stop the walk.
\<close>

theorem threshold_check_rule:
  "checkCategory stepName cats (cat, Some threshold) = threshold_rule stepName cats cat threshold \<and>
   checkCategory stepName cats (cat, None) = [] \<and>
   list_ex isThresholdAssert (checkCategory stepName cats (cat, Some threshold)) =
     (case map_of cats cat of
        None \<Rightarrow> False
      | Some c \<Rightarrow>
          (case flow_score c of None \<Rightarrow> False | Some s \<Rightarrow> \<not> (s = 0 \<and> allZeroWeight c))) \<and>
   assertLighthouseFlowResultThresholds steps thresholds =
     concat (map (\<lambda>step.
               Validating (orElse (flow_name step) ''Unnamed step'') #
               concat (map (checkCategory (orElse (flow_name step) ''Unnamed step'')
                              (flow_categories step)) thresholds)) steps)"
  by (auto simp: checkCategory_def threshold_rule_def allZeroWeight_def Let_def
      assertLighthouseFlowResultThresholds_def split: option.splits)

theorem threshold_check_rule_witness:
  "assertLighthouseFlowResultThresholds [sample_flow_step]
     [(''performance'', Some 90), (''seo'', Some 50), (''pwa'', Some 50), (''a11y'', Some 50)] =
   [Validating ''home'',
    ExpectNotNull True, LogOutcome False, ExpectAtLeast 50 90,
    ExpectNotNull True, LogOutcome True, ExpectAtLeast 100 50,
    WarnZeroWeight ''pwa'' ''home'',
    WarnNotFound ''a11y'' ''home'']"
  using threshold_check_rule [of "''home''" "flow_categories sample_flow_step" "''performance''" 90
      "[sample_flow_step]"
      "[(''performance'', Some 90), (''seo'', Some 50), (''pwa'', Some 50), (''a11y'', Some 50)]"]
    threshold_check_rule [of "''home''" "flow_categories sample_flow_step" "''seo''" 50]
    threshold_check_rule [of "''home''" "flow_categories sample_flow_step" "''pwa''" 50]
    threshold_check_rule [of "''home''" "flow_categories sample_flow_step" "''a11y''" 50]
  by (simp add: threshold_rule_def sample_flow_step_def flow_category_def allZeroWeight_def
      orElse_def)

text \<open>
  A category whose audit references all weigh zero is still checked when its score is
  not 0, and a category with a null score and a weighted audit gets no threshold
  assertion.
\<close>

theorem threshold_check_not_only_by_weight:
  "\<not> (list_ex isThresholdAssert
         (checkCategory ''home'' [(''performance'', flow_category (Some (1 / 2)) 0)]
            (''performance'', Some 90)) =
       (\<not> skipped_as_claimed [(''performance'', flow_category (Some (1 / 2)) 0)] ''performance'')) \<and>
   \<not> (list_ex isThresholdAssert
         (checkCategory ''home'' [(''performance'', flow_category None 1)]
            (''performance'', Some 90)) =
       (\<not> skipped_as_claimed [(''performance'', flow_category None 1)] ''performance''))"
  by (simp add: checkCategory_def skipped_as_claimed_def flow_category_def allZeroWeight_def)

lemma lower_hidden: "toLowerCase ''hidden'' = ''hidden''"
  by code_simp

text \<open>
  C9. The displayed group name: with a metadata entry for the identifier, the trimmed
  title when it is usable, otherwise \<open>Insights\<close> for the identifier \<open>hidden\<close> in any
  letter case and the raw identifier for any other; without an entry, \<open>Insights\<close>
  for \<open>hidden\<close> in any letter case, the fixed names of \<open>metrics\<close>, \<open>diagnostics\<close>
  and \<open>Other\<close>, and the raw identifier otherwise.
\<close>

theorem friendly_group_name:
  "getFriendlyGroupName groupId r = friendly_spec groupId (groupEntry r groupId)"
proof (cases "groupEntry r groupId")
  case None
  then show ?thesis
    by (simp add: getFriendlyGroupName_def friendly_spec_def fallback_def lower_hidden)
next
  case (Some g)
  show ?thesis
  proof (cases "group_title g")
    case None
    with Some show ?thesis
      by (simp add: getFriendlyGroupName_def friendly_spec_def usable_title_def orElse_def)
  next
    case (Some t)
    with \<open>groupEntry r groupId = Some g\<close> show ?thesis
      by (simp add: getFriendlyGroupName_def friendly_spec_def usable_title_def orElse_def)
  qed
qed

lemma sample_group_names:
  "getFriendlyGroupName ''budgets'' sample_groups = ''Budgets''"
  "getFriendlyGroupName ''Hidden'' sample_groups = ''Insights''"
  "getFriendlyGroupName ''metrics'' sample_groups = ''metrics''"
  "getFriendlyGroupName ''HIDDEN'' sample_before = ''Insights''"
  "getFriendlyGroupName ''metrics'' sample_before = ''Metrics''"
  "getFriendlyGroupName ''diagnostics'' sample_before = ''Diagnostics''"
  "getFriendlyGroupName ''Other'' sample_before = ''Other''"
  "getFriendlyGroupName ''budgets'' sample_before = ''budgets''"
  by code_simp+

theorem friendly_group_name_witness:
  "friendly_spec ''budgets'' (groupEntry sample_groups ''budgets'') = ''Budgets'' \<and>
   friendly_spec ''Hidden'' (groupEntry sample_groups ''Hidden'') = ''Insights'' \<and>
   friendly_spec ''metrics'' (groupEntry sample_groups ''metrics'') = ''metrics'' \<and>
   friendly_spec ''HIDDEN'' (groupEntry sample_before ''HIDDEN'') = ''Insights'' \<and>
   friendly_spec ''metrics'' (groupEntry sample_before ''metrics'') = ''Metrics'' \<and>
   friendly_spec ''diagnostics'' (groupEntry sample_before ''diagnostics'') = ''Diagnostics'' \<and>
   friendly_spec ''Other'' (groupEntry sample_before ''Other'') = ''Other'' \<and>
   friendly_spec ''budgets'' (groupEntry sample_before ''budgets'') = ''budgets''"
  using friendly_group_name [of "''budgets''" sample_groups]
    friendly_group_name [of "''Hidden''" sample_groups]
    friendly_group_name [of "''metrics''" sample_groups]
    friendly_group_name [of "''HIDDEN''" sample_before]
    friendly_group_name [of "''metrics''" sample_before]
    friendly_group_name [of "''diagnostics''" sample_before]
    friendly_group_name [of "''Other''" sample_before]
    friendly_group_name [of "''budgets''" sample_before]
  by (simp add: sample_group_names)

lemma mapE_Inr: "mapE (\<lambda>x. Inr (g x)) xs = Inr (map g xs)"
  by (induction xs) simp_all

lemma headerCell_Cons:
  "headerCell (step0 # rest) =
     (\<lambda>cat. Inr (orElse (map_option title (map_of (ts_categoryDiffs step0) cat)) cat))"
  by (rule ext) (simp add: headerCell_def)

lemma allCategoriesOf_Nil: "allCategoriesOf [] = []"
  by (simp add: allCategoriesOf_def)

lemma generateTimelineHTML_result:
  "generateTimelineHTML steps =
     Inr \<lparr>tl_header =
            map (\<lambda>cat. case steps of
                         [] \<Rightarrow> cat
                       | step0 # rest \<Rightarrow>
                           orElse (map_option title (map_of (ts_categoryDiffs step0) cat)) cat)
              (allCategoriesOf steps),
          tl_rows = map (timelineRow (allCategoriesOf steps)) (enumerate 0 steps)\<rparr>"
proof (cases steps)
  case Nil
  then show ?thesis
    by (simp add: generateTimelineHTML_def allCategoriesOf_Nil)
next
  case (Cons step0 rest)
  then show ?thesis
    by (simp add: generateTimelineHTML_def Let_def headerCell_Cons mapE_Inr)
qed

lemma header_spec_first:
  assumes "map_of (ts_categoryDiffs step0) cat \<noteq> None"
  shows "header_spec (step0 # rest) cat =
         orElse (map_option title (map_of (ts_categoryDiffs step0) cat)) cat"
  using assms by (simp add: header_spec_def)

text \<open>
  C5. Each column header of the index page, for a category of the union over the
  steps, shows the title of that category's delta in the first step of the sequence,
  and the raw category identifier when the first step has no delta for it or the
  title is empty. For a category that the first step defines this is the title of
  the first step that defines it.
\<close>

theorem header_from_first_step:
  "\<exists>html. generateTimelineHTML steps = Inr html \<and>
      tl_header html =
        map (\<lambda>cat. case steps of
                     [] \<Rightarrow> cat
                   | step0 # rest \<Rightarrow>
                       orElse (map_option title (map_of (ts_categoryDiffs step0) cat)) cat)
          (allCategoriesOf steps) \<and>
      (\<forall>step0 rest cat.
          steps = step0 # rest \<longrightarrow> map_of (ts_categoryDiffs step0) cat \<noteq> None \<longrightarrow>
          header_spec steps cat =
            orElse (map_option title (map_of (ts_categoryDiffs step0) cat)) cat)"
  by (auto simp: generateTimelineHTML_result header_spec_first)

lemma sample_timeline_header:
  "allCategoriesOf sample_timeline = [''performance'']"
  "header_spec sample_timeline ''performance'' = ''Performance''"
  "(case generateTimelineHTML sample_timeline of
      Inl e \<Rightarrow> False
    | Inr html \<Rightarrow> tl_header html = [''performance''])"
  by code_simp+

theorem header_from_first_step_witness:
  "\<exists>html. generateTimelineHTML sample_timeline = Inr html \<and>
      tl_header html = [''performance''] \<and>
      header_spec (rev sample_timeline) ''performance'' = ''Performance''"
proof -
  from header_from_first_step [of sample_timeline] obtain html where
    g: "generateTimelineHTML sample_timeline = Inr html" and
    h: "tl_header html =
        map (\<lambda>cat. case sample_timeline of
                     [] \<Rightarrow> cat
                   | step0 # rest \<Rightarrow>
                       orElse (map_option title (map_of (ts_categoryDiffs step0) cat)) cat)
          (allCategoriesOf sample_timeline)"
    by blast
  from h have "tl_header html = [''performance'']"
    by (simp add: sample_timeline_header) (simp add: sample_timeline_def orElse_def)
  moreover have "header_spec (rev sample_timeline) ''performance'' = ''Performance''"
    by code_simp
  ultimately show ?thesis using g by blast
qed

text \<open>
  The first step of the sample rows has no delta and the second has one titled
  \<open>Performance\<close>: the header shows the raw identifier, not that title.
\<close>

theorem header_not_from_first_defining_step:
  "allCategoriesOf sample_timeline = [''performance''] \<and>
   header_spec sample_timeline ''performance'' = ''Performance'' \<and>
   (case generateTimelineHTML sample_timeline of
      Inl e \<Rightarrow> False
    | Inr html \<Rightarrow> tl_header html = [''performance'']) \<and>
   \<not> (case generateTimelineHTML sample_timeline of
        Inl e \<Rightarrow> False
      | Inr html \<Rightarrow> tl_header html = map (header_spec sample_timeline)
                                        (allCategoriesOf sample_timeline))"
  by (simp add: sample_timeline_header split: sum.splits) (use sample_timeline_header(3) in \<open>auto split: sum.splits\<close>)

section \<open>The comparison driver: steps and files\<close>

lemma show_nat_inj: "show_nat m = show_nat n \<Longrightarrow> m = n"
  by (metis val_digits_show_nat)

lemma stepFile_inj: "stepFile m = stepFile n \<Longrightarrow> m = n"
  by (simp add: stepFile_def show_nat_inj)

lemma stepFile_not_index: "stepFile n \<noteq> ''index.html''"
  by (simp add: stepFile_def)

lemma compareStep_name: "compareStep i b a = Inr r \<Longrightarrow> fst (snd r) = stepFile (i + 1)"
  by (auto simp: compareStep_def Let_def split: sum.splits)


lemma main_loop_result:
  "main_loop bs afs i st = Inr st' \<Longrightarrow>
   \<exists>rs. st' = (fst st @ map fst rs, snd st @ map snd rs) \<and>
        list_all2 (\<lambda>j r. compareStep j (bs ! j) (afs ! j) = Inr r)
          [i..<min (length bs) (length afs)] rs"
proof (induction bs afs i st rule: main_loop.induct)
  case (1 bs afs i st)
  show ?case
  proof (cases "i < min (length bs) (length afs)")
    case False
    with "1.prems" have "st' = st"
      by (auto simp: main_loop.simps [of bs afs i st] split: if_splits)
    moreover from False have "min (length bs) (length afs) \<le> i"
      by arith
    then have "[i..<min (length bs) (length afs)] = []"
      by (simp only: upt_eq_Nil_conv) simp
    moreover note \<open>st' = st\<close>
    ultimately show ?thesis
      by (intro exI [of _ "[]"]) simp
  next
    case True
    with "1.prems" obtain r where
      r: "compareStep i (bs ! i) (afs ! i) = Inr r" and
      l: "main_loop bs afs (i + 1) (fst st @ [fst r], snd st @ [snd r]) = Inr st'"
      by (auto simp: main_loop.simps [of bs afs i st] split: sum.splits)
    from "1.IH" [OF True r l] obtain rs where
      s: "st' = ((fst st @ [fst r]) @ map fst rs, (snd st @ [snd r]) @ map snd rs)" and
      a: "list_all2 (\<lambda>j r. compareStep j (bs ! j) (afs ! j) = Inr r)
            [i + 1..<min (length bs) (length afs)] rs"
      by auto
    have u: "[i..<min (length bs) (length afs)] = i # [i + 1..<min (length bs) (length afs)]"
      using True by (simp add: upt_conv_Cons)
    have "st' = (fst st @ map fst (r # rs), snd st @ map snd (r # rs))"
      using s by simp
    moreover have "list_all2 (\<lambda>j r. compareStep j (bs ! j) (afs ! j) = Inr r)
            [i..<min (length bs) (length afs)] (r # rs)"
      using a r by (simp only: u list_all2_Cons)
    ultimately show ?thesis by blast
  qed
qed


lemma aligned_names:
  "list_all2 (\<lambda>j r. compareStep j (bs ! j) (afs ! j) = Inr r) js rs \<Longrightarrow>
   map fst (map snd rs) = map (\<lambda>j. stepFile (j + 1)) js"
  by (induction js rs rule: list_all2_induct) (auto dest: compareStep_name)

lemma cell_of_somes:
  "c \<in> set (somes (map (\<lambda>cat. map_option (timelineCell i) (f cat)) cats)) \<Longrightarrow>
   cell_href c = stepFile i"
  by (induction cats) (auto simp: somes_def timelineCell_def split: option.splits)

lemma timeline_rows:
  assumes "generateTimelineHTML steps = Inr html" "i < length steps"
  shows "length (tl_rows html) = length steps \<and>
         row_href (tl_rows html ! i) = stepFile (i + 1) \<and>
         (\<forall>c\<in>set (somes (row_cells (tl_rows html ! i))). cell_href c = stepFile i)"
proof -
  from assms(1) have
    rows: "tl_rows html = map (timelineRow (allCategoriesOf steps)) (enumerate 0 steps)"
    by (auto simp: generateTimelineHTML_result)
  have row: "tl_rows html ! i = timelineRow (allCategoriesOf steps) (i, steps ! i)"
    using assms(2) by (simp add: rows nth_enumerate_eq)
  show ?thesis
    using assms(2)
    by (auto simp: rows nth_enumerate_eq timelineRow_def Let_def dest: cell_of_somes)
qed



text \<open>
  C10. In the index page that a run writes, the step link of row \<open>i\<close> (counted from
  0) points to \<open>step-(i+1).html\<close> and every populated category cell of that row to
  \<open>step-i.html\<close>, one behind; the step files written are \<open>step-1.html\<close> onwards,
  so \<open>step-0.html\<close>, the target of the first row's cells, is never written.
\<close>

theorem category_cells_link_one_step_behind:
  assumes "main beforeDoc afterDoc = Inr files"
  shows "\<exists>stepFiles index.
           files = stepFiles @ [(''index.html'', TimelineHTML index)] \<and>
           map fst stepFiles = map (\<lambda>i. stepFile (i + 1)) [0..<length stepFiles] \<and>
           length (tl_rows index) = length stepFiles \<and>
           (\<forall>i<length stepFiles.
              row_href (tl_rows index ! i) = stepFile (i + 1) \<and>
              (\<forall>c\<in>set (somes (row_cells (tl_rows index ! i))). cell_href c = stepFile i)) \<and>
           stepFile 0 \<notin> fst ` set files"
proof -
  let ?bs = "stepsOf beforeDoc" and ?afs = "stepsOf afterDoc"
  from assms obtain st' index where
    l: "main_loop ?bs ?afs 0 ([], []) = Inr st'" and
    g: "generateTimelineHTML (fst st') = Inr index" and
    f: "files = snd st' @ [(''index.html'', TimelineHTML index)]"
    by (auto simp: main_def split: sum.splits)
  from main_loop_result [OF l] obtain rs where
    s: "st' = (map fst rs, map snd rs)" and
    a: "list_all2 (\<lambda>j r. compareStep j (?bs ! j) (?afs ! j) = Inr r)
          [0..<min (length ?bs) (length ?afs)] rs"
    by auto
  from a have len: "length rs = min (length ?bs) (length ?afs)"
    by (auto dest: list_all2_lengthD)
  have n: "map fst (map snd rs) = map (\<lambda>i. stepFile (i + 1)) [0..<length (map snd rs)]"
    using aligned_names [OF a] len by simp
  have rows: "\<forall>i<length (map snd rs).
              row_href (tl_rows index ! i) = stepFile (i + 1) \<and>
              (\<forall>c\<in>set (somes (row_cells (tl_rows index ! i))). cell_href c = stepFile i)"
    using timeline_rows [of "map fst rs" index] g s by simp
  have rl: "length (tl_rows index) = length (map snd rs)"
    using g s by (auto simp: generateTimelineHTML_result)
  have z: "stepFile 0 \<notin> fst ` set files"
  proof
    assume "stepFile 0 \<in> fst ` set files"
    then have "stepFile 0 \<in> set (map fst files)" by simp
    then have "stepFile 0 \<in> set (map fst (map snd rs) @ [''index.html''])"
      using f s by simp
    then have "stepFile 0 \<in>
        set (map (\<lambda>i. stepFile (i + 1)) [0..<length (map snd rs)] @ [''index.html''])"
      by (simp only: n)
    then show False
      using stepFile_not_index [of 0] by (auto dest: stepFile_inj)
  qed
  from f s n rl rows z show ?thesis
    by (intro exI [of _ "map snd rs"] exI [of _ index]) simp
qed



lemma sample_step_names:
  "stepFile 0 = ''step-0.html''"
  "stepFile (Suc 0) = ''step-1.html''"
  "stepFile (Suc (Suc 0)) = ''step-2.html''"
  by code_simp+


lemma sample_main_links:
  "(case main (Bare sample_before) (Bare sample_after) of
      Inl e \<Rightarrow> False
    | Inr files \<Rightarrow>
        map fst files = [''step-1.html'', ''index.html''] \<and>
        (case snd (last files) of
           StepHTML p \<Rightarrow> False
         | TimelineHTML index \<Rightarrow>
             map (\<lambda>r. (row_href r, map cell_href (somes (row_cells r)))) (tl_rows index) =
               [(''step-1.html'', [''step-0.html''])]))"
  by code_simp

theorem category_cells_link_one_step_behind_witness:
  "\<exists>files index.
     main (Bare sample_before) (Bare sample_after) = Inr files \<and>
     map fst files = [''step-1.html'', ''index.html''] \<and>
     snd (last files) = TimelineHTML index \<and>
     map (\<lambda>r. (row_href r, map cell_href (somes (row_cells r)))) (tl_rows index) =
       [(''step-1.html'', [''step-0.html''])] \<and>
     ''step-0.html'' \<notin> fst ` set files"
proof -
  from sample_main_links obtain files index where
    m: "main (Bare sample_before) (Bare sample_after) = Inr files" and
    n: "map fst files = [''step-1.html'', ''index.html'']" and
    i: "snd (last files) = TimelineHTML index" and
    r: "map (\<lambda>r. (row_href r, map cell_href (somes (row_cells r)))) (tl_rows index) =
          [(''step-1.html'', [''step-0.html''])]"
    by (auto split: sum.splits page.splits)
  from category_cells_link_one_step_behind [OF m] have z: "stepFile 0 \<notin> fst ` set files"
    by blast
  note z [unfolded sample_step_names(1)]
  with m n i r show ?thesis by (intro exI conjI)
qed

end
